theory Spec2Isabelle
  imports Main "HOL-Library.Sublist" "HOL-Library.Multiset"
begin

section \<open>Strings\<close>

text \<open>
  A Python \<open>str\<close> is modelled as a \<open>string\<close> whose characters stand for code points
  below 256, so \<open>length\<close> is Python's \<open>len\<close> on such strings. The response body
  (\<open>bytes\<close>) is a \<open>string\<close> as well. Console output (\<open>print\<close>) is not modelled.
\<close>

text \<open>\<open>s.split(sep, 1)\<close> for a separator that occurs in \<open>s\<close>: the text before and
  after the first occurrence; \<open>None\<close> when \<open>sep\<close> does not occur.\<close>

fun split_first :: "string \<Rightarrow> string \<Rightarrow> (string \<times> string) option" where
  "split_first sep [] = (if sep = [] then Some ([], []) else None)"
| "split_first sep (c # cs) =
     (if prefix sep (c # cs) then Some ([], drop (length sep) (c # cs))
      else (case split_first sep cs of
              None \<Rightarrow> None
            | Some (before, after) \<Rightarrow> Some (c # before, after)))"

text \<open>\<open>sub in s\<close>.\<close>

definition contains :: "string \<Rightarrow> string \<Rightarrow> bool" where
  "contains sub s = (split_first sub s \<noteq> None)"

text \<open>\<open>s.split(sep, 1)[1]\<close>, used only where \<open>sep\<close> occurs in \<open>s\<close>; and
  \<open>s.split(sep, 1)[0]\<close>, which is \<open>s\<close> itself when \<open>sep\<close> does not occur.\<close>

definition split_after :: "string \<Rightarrow> string \<Rightarrow> string" where
  "split_after sep s = (case split_first sep s of None \<Rightarrow> s | Some (before, after) \<Rightarrow> after)"

definition split_before :: "string \<Rightarrow> string \<Rightarrow> string" where
  "split_before sep s = (case split_first sep s of None \<Rightarrow> s | Some (before, after) \<Rightarrow> before)"

text \<open>\<open>s.replace(" ", "+")\<close>.\<close>

definition replace_space :: "string \<Rightarrow> string" where
  "replace_space s = map (\<lambda>c. if c = CHR '' '' then CHR ''+'' else c) s"

text \<open>\<open>str(n)\<close> for an integer, as the f-strings that build the request URLs use it.\<close>

fun str_nat :: "nat \<Rightarrow> string" where
  "str_nat n = (if n < 10 then [char_of (48 + n)]
                else str_nat (n div 10) @ [char_of (48 + n mod 10)])"

declare str_nat.simps [simp del]

definition str_int :: "int \<Rightarrow> string" where
  "str_int i = (if i < 0 then CHR ''-'' # str_nat (nat (- i)) else str_nat (nat i))"

subsection \<open>Percent decoding\<close>

text \<open>
  \<open>urllib.parse.unquote\<close> is library code. The functions of the repository take it as a
  parameter \<open>unq\<close>, and the general theorems hold for every such function. The
  definition below is the decoder used at concrete inputs: a string without \<open>%\<close> is
  returned as it is (the library's first branch), otherwise every \<open>%\<close> followed by two
  hexadecimal digits becomes the character with that code and any other \<open>%\<close> stays.
  The library decodes escapes of \<open>%80\<close> and above as UTF-8 sequences; the definition
  agrees with it on strings whose escapes are all below \<open>%80\<close>, and no concrete input
  in this theory has another one.
\<close>

definition hexdig :: "char \<Rightarrow> nat option" where
  "hexdig c = (let n = (of_char c :: nat) in
     if 48 \<le> n \<and> n \<le> 57 then Some (n - 48)
     else if 65 \<le> n \<and> n \<le> 70 then Some (n - 55)
     else if 97 \<le> n \<and> n \<le> 102 then Some (n - 87)
     else None)"

fun unquote_scan :: "string \<Rightarrow> string" where
  "unquote_scan (c # a # b # rest) =
     (if c = CHR ''%'' then
        (case (hexdig a, hexdig b) of
           (Some x, Some y) \<Rightarrow> char_of (16 * x + y) # unquote_scan rest
         | _ \<Rightarrow> c # unquote_scan (a # b # rest))
      else c # unquote_scan (a # b # rest))"
| "unquote_scan (c # cs) = c # unquote_scan cs"
| "unquote_scan [] = []"

definition unquote :: "string \<Rightarrow> string" where
  "unquote s = (if CHR ''%'' \<notin> set s then s else unquote_scan s)"

section \<open>URL normalisation (search\_engine.py)\<close>

definition normalize_url :: "(string \<Rightarrow> string) \<Rightarrow> string \<Rightarrow> string" where
  "normalize_url unq url =
     (let url = (if contains ''uddg=http'' url then
                   (let url = split_after ''uddg='' url in
                    if contains ''&rut='' url then split_before ''&rut='' url else url)
                 else url);
          url = (if contains ''/RU=http'' url then
                   (let url = split_after ''/RU='' url in
                    if contains ''/RK=2/RS'' url then split_before ''/RK=2/RS='' url else url)
                 else url)
      in if url \<noteq> [] then unq (replace_space url) else [])"


section \<open>Collaborators and effects\<close>

text \<open>
  Exceptions are values. Every exception of the model is an instance of Python's
  \<open>Exception\<close>, so each \<open>except Exception\<close> of the source catches all of them.
\<close>

datatype error =
    TransportError string
  | ParserError string
  | ConversionError string
  | OSError string
  | ValueError string

text \<open>\<open>str(e)\<close>.\<close>

fun str_error :: "error \<Rightarrow> string" where
  "str_error (TransportError m) = m"
| "str_error (ParserError m) = m"
| "str_error (ConversionError m) = m"
| "str_error (OSError m) = m"
| "str_error (ValueError m) = m"

text \<open>
  The \<open>Response\<close> of scraper.py: the body, and the two lazily converted views of it. A
  conversion that raises when the property is read is an \<open>Inl\<close> in that field.
  The converter works through a temporary file that it removes again; that file is
  not modelled.
\<close>

record response =
  content :: string
  markdown :: "error + string"
  plain_text :: "error + string"

text \<open>The element tree that \<open>lxml\<close> builds; attributes in source order.\<close>

datatype node = Element (tag: string) (attrib: "(string \<times> string) list") (children: "node list")

text \<open>
  The parts of the world that the pipeline consumes. \<open>fetch_get\<close> is
  \<open>BasicScraper.get\<close>, which returns a \<open>Response\<close> or raises (it never returns
  \<open>None\<close>); \<open>document_fromstring\<close> is the \<open>lxml\<close> parser, which raises on a body
  with no document in it; \<open>unq\<close> is \<open>urllib.parse.unquote\<close>; \<open>open_wb\<close> is the
  error, if any, with which \<open>open(path, 'wb')\<close> is refused.
\<close>

record env =
  fetch_get :: "string \<Rightarrow> error + response"
  document_fromstring :: "string \<Rightarrow> error + node"
  unq :: "string \<Rightarrow> string"
  open_wb :: "string \<Rightarrow> error option"

text \<open>
  What an operation does to the outside world is returned beside its value, in the order
  in which it happens: the requests sent and the files written.
\<close>

datatype effect = HttpGet string | FileWrite string string

type_synonym 'a io = "'a \<times> effect list"

type_synonym filesystem = "string \<rightharpoonup> string"

fun apply_effect :: "effect \<Rightarrow> filesystem \<Rightarrow> filesystem" where
  "apply_effect (HttpGet url) fs = fs"
| "apply_effect (FileWrite path bytes) fs = fs(path \<mapsto> bytes)"

definition apply_effects :: "effect list \<Rightarrow> filesystem \<Rightarrow> filesystem" where
  "apply_effects fx fs = fold apply_effect fx fs"

section \<open>XPath queries of the provider parsers\<close>

text \<open>All elements of the document, in document order.\<close>

fun descendant_or_self :: "node \<Rightarrow> node list" where
  "descendant_or_self (Element t a cs) = Element t a cs # concat (map descendant_or_self cs)"

text \<open>\<open>tree.xpath("//t")\<close> and \<open>tree.xpath("//div[h2]")\<close>.\<close>

definition xpath_all :: "string \<Rightarrow> node \<Rightarrow> node list" where
  "xpath_all t tree = filter (\<lambda>e. tag e = t) (descendant_or_self tree)"

definition xpath_div_h2 :: "node \<Rightarrow> node list" where
  "xpath_div_h2 tree =
     filter (\<lambda>e. tag e = ''div'' \<and> (\<exists>c \<in> set (children e). tag c = ''h2''))
       (descendant_or_self tree)"

definition child_elements :: "string \<Rightarrow> node \<Rightarrow> node list" where
  "child_elements t e = filter (\<lambda>c. tag c = t) (children e)"

definition attribute_values :: "string \<Rightarrow> node list \<Rightarrow> string list" where
  "attribute_values name es = List.map_filter (\<lambda>e. map_of (attrib e) name) es"

text \<open>\<open>e.xpath("./a/@href")\<close> and \<open>e.xpath("./span/a/@href")\<close>.\<close>

definition xpath_a_href :: "node \<Rightarrow> string list" where
  "xpath_a_href e = attribute_values ''href'' (child_elements ''a'' e)"

definition xpath_span_a_href :: "node \<Rightarrow> string list" where
  "xpath_span_a_href e =
     attribute_values ''href'' (concat (map (child_elements ''a'') (child_elements ''span'' e)))"

section \<open>Provider parsers (search\_engine.py)\<close>

text \<open>
  The loop that the four \<open>_search_*\<close> methods share, over the elements the provider's
  XPath query selected: \<open>hrefs\<close> is the provider's inner query and \<open>keep\<close> the
  provider's own test in the \<open>if\<close> that guards the append. The queries return node
  lists, so the \<open>isinstance\<close> tests of the source always hold.
\<close>

fun scan_elements ::
  "(string \<Rightarrow> string) \<Rightarrow> (node \<Rightarrow> string list) \<Rightarrow> (node \<Rightarrow> string \<Rightarrow> bool) \<Rightarrow>
   node list \<Rightarrow> string list \<Rightarrow> string set \<Rightarrow> string list" where
  "scan_elements un hrefs keep [] page_results cache = page_results"
| "scan_elements un hrefs keep (e # es) page_results cache =
     (let hrefxpath = hrefs e;
          href = (case hrefxpath of [] \<Rightarrow> None | h # _ \<Rightarrow> Some h);
          href = (case href of
                    None \<Rightarrow> None
                  | Some h \<Rightarrow> if h \<noteq> [] then Some (normalize_url un h) else None)
      in case href of
           None \<Rightarrow> scan_elements un hrefs keep es page_results cache
         | Some h \<Rightarrow>
             if h \<noteq> [] \<and> keep e h \<and> h \<notin> cache
             then scan_elements un hrefs keep es (page_results @ [h]) (insert h cache)
             else scan_elements un hrefs keep es page_results cache)"

definition parse_google :: "(string \<Rightarrow> string) \<Rightarrow> node \<Rightarrow> string list" where
  "parse_google un tree =
     scan_elements un xpath_span_a_href (\<lambda>e href. prefix ''http'' href)
       (xpath_all ''div'' tree) [] {}"

definition parse_bing :: "(string \<Rightarrow> string) \<Rightarrow> node \<Rightarrow> string list" where
  "parse_bing un tree =
     scan_elements un xpath_a_href (\<lambda>e href. prefix ''http'' href)
       (xpath_all ''h2'' tree) [] {}"

definition parse_yahoo :: "(string \<Rightarrow> string) \<Rightarrow> node \<Rightarrow> string list" where
  "parse_yahoo un tree =
     scan_elements un xpath_a_href (\<lambda>e href. map_of (attrib e) ''class'' = Some ''d-ib v-v'')
       (xpath_all ''div'' tree) [] {}"

definition parse_duckduckgo :: "(string \<Rightarrow> string) \<Rightarrow> node \<Rightarrow> string list" where
  "parse_duckduckgo un tree =
     scan_elements un xpath_a_href (\<lambda>e href. True) (xpath_div_h2 tree) [] {}"

text \<open>Fetching the result page and parsing it.\<close>

definition parse_page ::
  "env \<Rightarrow> ((string \<Rightarrow> string) \<Rightarrow> node \<Rightarrow> string list) \<Rightarrow> string \<Rightarrow> error + string list" where
  "parse_page env parse body =
     (case document_fromstring env body of
        Inl e \<Rightarrow> Inl e
      | Inr tree \<Rightarrow> Inr (parse (unq env) tree))"

definition search_google :: "env \<Rightarrow> string \<Rightarrow> int \<Rightarrow> (error + string list) io" where
  "search_google env query num_results =
     (let url = ''https://www.google.com/search?udm=14&q='' @ query @ ''&num='' @ str_int num_results
      in case fetch_get env url of
           Inl e \<Rightarrow> (Inl e, [HttpGet url])
         | Inr search_results \<Rightarrow>
             (parse_page env parse_google (content search_results), [HttpGet url]))"

definition search_bing :: "env \<Rightarrow> string \<Rightarrow> int \<Rightarrow> (error + string list) io" where
  "search_bing env query num_results =
     (let url = ''https://www.bing.com/search?q='' @ query @ ''&count='' @ str_int num_results
      in case fetch_get env url of
           Inl e \<Rightarrow> (Inl e, [HttpGet url])
         | Inr search_results \<Rightarrow>
             (case open_wb env ''bing.html'' of
                Some e \<Rightarrow> (Inl e, [HttpGet url])
              | None \<Rightarrow>
                  (parse_page env parse_bing (content search_results),
                   [HttpGet url, FileWrite ''bing.html'' (content search_results)])))"

definition search_yahoo :: "env \<Rightarrow> string \<Rightarrow> int \<Rightarrow> (error + string list) io" where
  "search_yahoo env query num_results =
     (let url = ''https://search.yahoo.com/search?q='' @ query @ ''&n='' @ str_int num_results
      in case fetch_get env url of
           Inl e \<Rightarrow> (Inl e, [HttpGet url])
         | Inr search_results \<Rightarrow>
             (parse_page env parse_yahoo (content search_results), [HttpGet url]))"

definition search_duckduckgo :: "env \<Rightarrow> string \<Rightarrow> int \<Rightarrow> (error + string list) io" where
  "search_duckduckgo env query num_results =
     (let url = ''https://www.duckduckgo.com/html/?q='' @ query @ ''&num='' @ str_int num_results
      in case fetch_get env url of
           Inl e \<Rightarrow> (Inl e, [HttpGet url])
         | Inr html \<Rightarrow>
             (parse_page env parse_duckduckgo (content html), [HttpGet url]))"


section \<open>Search engine (search\_engine.py)\<close>

text \<open>\<open>xs[:k]\<close>: a negative \<open>k\<close> drops the last \<open>-k\<close> elements.\<close>

definition slice_to :: "'a list \<Rightarrow> int \<Rightarrow> 'a list" where
  "slice_to xs k = (if 0 \<le> k then take (nat k) xs else take (length xs - nat (- k)) xs)"

definition slice_result :: "(error + 'a list) io \<Rightarrow> int \<Rightarrow> (error + 'a list) io" where
  "slice_result r k =
     (case r of (Inl e, fx) \<Rightarrow> (Inl e, fx) | (Inr xs, fx) \<Rightarrow> (Inr (slice_to xs k), fx))"

definition engines :: "string list" where
  "engines = [''google'', ''bing'', ''yahoo'', ''duckduckgo'']"

text \<open>
  What is not determined by the arguments of an auto search: the two numbers that
  \<open>random.sample\<close> draws, and the order in which the two submitted searches complete
  (positions in the list of futures).
\<close>

record auto_sched =
  draws :: "nat \<times> nat"
  completion :: "nat list"

text \<open>
  \<open>random.sample(population, 2)\<close> as CPython computes it for a short population:
  the first draw is below \<open>n\<close> and selects from the pool, the selected slot is refilled
  with the last element of the pool, and the second draw is below \<open>n - 1\<close>.
\<close>

definition random_sample2 :: "nat \<times> nat \<Rightarrow> 'a list \<Rightarrow> 'a list" where
  "random_sample2 d population =
     (let n = length population;
          j0 = fst d mod n;
          r0 = population ! j0;
          pool = population[j0 := population ! (n - 1)];
          j1 = snd d mod (n - 1);
          r1 = pool ! j1
      in [r0, r1])"

text \<open>A completion order of \<open>n\<close> submitted tasks names each position once.\<close>

definition valid_order :: "nat \<Rightarrow> nat list \<Rightarrow> bool" where
  "valid_order n order = (sort order = [0..<n])"

text \<open>\<open>as_completed(futures)\<close>: the futures in the order in which they complete.\<close>

definition as_completed :: "nat list \<Rightarrow> 'a list \<Rightarrow> 'a list" where
  "as_completed order futures = map (\<lambda>i. futures ! i) order"

text \<open>The loop over the completed futures of an auto search: a future that raises is
  skipped.\<close>

fun extend_results :: "(error + 'a list) list \<Rightarrow> 'a list \<Rightarrow> 'a list" where
  "extend_results [] results = results"
| "extend_results (Inl e # futures) results = extend_results futures results"
| "extend_results (Inr r # futures) results = extend_results futures (results @ r)"

text \<open>\<open>list(dict.fromkeys(xs))\<close>: the keys in insertion order.\<close>

fun fromkeys :: "'a list \<Rightarrow> 'a list \<Rightarrow> 'a list" where
  "fromkeys [] keys = keys"
| "fromkeys (x # xs) keys = (if x \<in> set keys then fromkeys xs keys else fromkeys xs (keys @ [x]))"

function search :: "env \<Rightarrow> auto_sched \<Rightarrow> string \<Rightarrow> string \<Rightarrow> int \<Rightarrow> (error + string list) io" where
  "search env sch provider query num_results =
     (if provider = ''google'' then slice_result (search_google env query num_results) num_results
      else if provider = ''bing'' then slice_result (search_bing env query num_results) num_results
      else if provider = ''yahoo'' then slice_result (search_yahoo env query num_results) num_results
      else if provider = ''duckduckgo'' then
        slice_result (search_duckduckgo env query num_results) num_results
      else if provider = ''auto'' then
        (let chosen = random_sample2 (draws sch) engines;
             futures = map (\<lambda>eng. search env sch eng query num_results) chosen;
             finished = as_completed (completion sch) futures;
             results = extend_results (map fst finished) [];
             deduped = fromkeys results []
         in (Inr (slice_to deduped num_results), concat (map snd finished)))
      else (Inr [], []))"
  by pat_completeness auto

termination search
proof (relation "measure (\<lambda>(env, sch, provider, query, num_results). if provider = ''auto'' then 1 else 0)")
  show "wf (measure (\<lambda>(env, sch, provider, query, num_results). if provider = ''auto'' then 1 else (0::nat)))"
    by simp
next
  fix env :: env and sch :: auto_sched and provider query :: string and num_results :: int
    and chosen eng
  assume auto: "provider = ''auto''" and chosen: "chosen = random_sample2 (draws sch) engines"
    and eng: "eng \<in> set chosen"
  obtain d0 d1 where d: "draws sch = (d0, d1)" by (cases "draws sch")
  have "d0 mod 4 < 4" and "d1 mod 3 < 3" by simp_all
  then have "(d0 mod 4 = 0 \<or> d0 mod 4 = 1 \<or> d0 mod 4 = 2 \<or> d0 mod 4 = 3)
      \<and> (d1 mod 3 = 0 \<or> d1 mod 3 = 1 \<or> d1 mod 3 = 2)" by arith
  with chosen eng d have "eng \<in> set engines"
    by (auto simp: random_sample2_def engines_def Let_def)
  then have "eng \<noteq> ''auto''" by (auto simp: engines_def)
  with auto
  show "((env, sch, eng, query, num_results), (env, sch, provider, query, num_results))
        \<in> measure (\<lambda>(env, sch, provider, query, num_results). if provider = ''auto'' then 1 else 0)"
    by simp
qed

declare search.simps [simp del]


section \<open>Bulk search (search\_engine.py)\<close>

text \<open>The dictionary \<open>{'query': ..., 'urls': ...}\<close>, with an \<open>'error'\<close> entry when
  the search raised.\<close>

record search_record =
  sr_query :: string
  sr_urls :: "string list"
  sr_error :: "string option"

definition search_with_error_handling ::
  "env \<Rightarrow> auto_sched \<Rightarrow> string \<Rightarrow> string \<Rightarrow> int \<Rightarrow> search_record io" where
  "search_with_error_handling env sch provider query num_results_from_each =
     (case search env sch provider query num_results_from_each of
        (Inr result_urls, fx) \<Rightarrow>
          (\<lparr>sr_query = query, sr_urls = result_urls, sr_error = None\<rparr>, fx)
      | (Inl e, fx) \<Rightarrow>
          (\<lparr>sr_query = query, sr_urls = [], sr_error = Some (str_error e)\<rparr>, fx))"

text \<open>\<open>ThreadPoolExecutor(max_workers)\<close> raises unless \<open>max_workers\<close> is positive.\<close>

definition thread_pool_executor :: "int \<Rightarrow> error option" where
  "thread_pool_executor max_workers =
     (if max_workers \<le> 0 then Some (ValueError ''max_workers must be greater than 0'') else None)"

text \<open>
  \<open>executor.map(f, xs)\<close>: the tasks complete in the order \<open>order\<close>, each filling the
  slot of its own position, and the results are read slot by slot once all are done.
  The effects of the tasks happen in completion order.
\<close>

definition executor_map :: "nat list \<Rightarrow> 'a io list \<Rightarrow> 'a list io" where
  "executor_map order tasks =
     (let finished = map (\<lambda>i. (i, fst (tasks ! i))) order
      in (List.map_filter (map_of finished) [0..<length tasks],
          concat (map (\<lambda>i. snd (tasks ! i)) order)))"

text \<open>The loop of the combined mode: the URLs of every record with results.\<close>

fun combine_urls :: "search_record list \<Rightarrow> string list \<Rightarrow> string list" where
  "combine_urls [] urls = urls"
| "combine_urls (json_obj # results) urls =
     (if sr_urls json_obj = [] then combine_urls results urls
      else combine_urls results (urls @ sr_urls json_obj))"

datatype bulk_result = Combined "string list" | Records "search_record list"

text \<open>
  What is not determined by the arguments of a bulk search: the completion order of the
  per-query searches, and the schedule of the auto search at each position.
\<close>

record bulk_sched =
  query_order :: "nat list"
  query_sched :: "nat \<Rightarrow> auto_sched"

definition bulk_search ::
  "env \<Rightarrow> bulk_sched \<Rightarrow> string \<Rightarrow> string list \<Rightarrow> int \<Rightarrow> bool \<Rightarrow> (error + bulk_result) io" where
  "bulk_search env sch provider queries num_results_from_each combined =
     (let max_workers = (if queries \<noteq> [] then min 10 (int (length queries)) else 1)
      in case thread_pool_executor max_workers of
           Some e \<Rightarrow> (Inl e, [])
         | None \<Rightarrow>
             (let (results, fx) =
                    executor_map (query_order sch)
                      (map (\<lambda>(i, q). search_with_error_handling env (query_sched sch i) provider q
                                        num_results_from_each)
                         (enumerate 0 queries))
              in if combined then (Inr (Combined (combine_urls results [])), fx)
                 else (Inr (Records results), fx)))"

section \<open>Content extraction (search\_\&\_extract.py)\<close>

datatype content_type = Markdown | PlainText | Clean

text \<open>
  \<open>re.sub(p + '+', ' ', s)\<close> for a character class \<open>p\<close>: every maximal run of
  characters of the class becomes one space. \<open>is_newline\<close> is the class \<open>\n\<close> and
  \<open>is_space\<close> the class \<open>\s\<close> on the code points below 256.
\<close>

function re_sub_runs :: "(char \<Rightarrow> bool) \<Rightarrow> string \<Rightarrow> string" where
  "re_sub_runs p [] = []"
| "re_sub_runs p (c # cs) =
     (if p c then CHR '' '' # re_sub_runs p (dropWhile p cs) else c # re_sub_runs p cs)"
  by pat_completeness auto
termination
  by (relation "measure (\<lambda>(p, s). length s)") (auto simp: le_imp_less_Suc length_dropWhile_le)

definition is_newline :: "char \<Rightarrow> bool" where
  "is_newline c = ((of_char c :: nat) = 10)"

definition is_space :: "char \<Rightarrow> bool" where
  "is_space c = ((of_char c :: nat) \<in> {9, 10, 11, 12, 13, 28, 29, 30, 31, 32, 133, 160})"

text \<open>
  The record \<open>{url: content}\<close> is the pair of its key and its value; \<open>None\<close> is the
  \<open>None\<close> of the source, returned when the fetch or the conversion raised.
\<close>

definition fetch_site_from_url ::
  "env \<Rightarrow> string \<Rightarrow> content_type \<Rightarrow> int option \<Rightarrow> (string \<times> string) option io" where
  "fetch_site_from_url env url ty max_text =
     (case fetch_get env url of
        Inl e \<Rightarrow> (None, [HttpGet url])
      | Inr content_obj \<Rightarrow>
          (case (if ty = Markdown then markdown content_obj else plain_text content_obj) of
             Inl e \<Rightarrow> (None, [HttpGet url])
           | Inr text \<Rightarrow>
               (let text = (if ty = Clean
                            then re_sub_runs is_space (re_sub_runs is_newline text) else text);
                    text = (case max_text of
                              None \<Rightarrow> text
                            | Some m \<Rightarrow> if 0 < m then take (nat m) text else text)
                in (Some (url, text), [HttpGet url]))))"

text \<open>The loop over the completed futures: a \<open>None\<close> is dropped.\<close>

fun collect_results :: "'a option list \<Rightarrow> 'a list \<Rightarrow> 'a list" where
  "collect_results [] results = results"
| "collect_results (None # futures) results = collect_results futures results"
| "collect_results (Some result # futures) results = collect_results futures (results @ [result])"

text \<open>
  \<open>sorted(xs, key=..., reverse=True)\<close> with the length of the content as key. Python
  sorts in reverse by reversing the list, sorting it with its stable ascending sort,
  and reversing the result.
\<close>

definition sorted_by_length_reverse :: "(string \<times> string) list \<Rightarrow> (string \<times> string) list" where
  "sorted_by_length_reverse xs = rev (sort_key (\<lambda>item. length (snd item)) (rev xs))"

definition fetch_site_from_url_bulk ::
  "env \<Rightarrow> nat list \<Rightarrow> string list \<Rightarrow> content_type \<Rightarrow> int option \<Rightarrow>
   (error + (string \<times> string) list) io" where
  "fetch_site_from_url_bulk env order urls ty max_text =
     (case thread_pool_executor (int (length urls)) of
        Some e \<Rightarrow> (Inl e, [])
      | None \<Rightarrow>
          (let futures = map (\<lambda>url. fetch_site_from_url env url ty max_text) urls;
               finished = as_completed order futures;
               results = collect_results (map fst finished) []
           in (Inr (sorted_by_length_reverse results), concat (map snd finished))))"

text \<open>
  The pipeline. With \<open>combined = False\<close> the bulk search returns records, and the
  source passes them on as if they were URLs: \<open>BasicScraper.get\<close> then raises before any
  request is sent (its cached referer helper cannot hash a dictionary), so every item
  is a \<open>None\<close>.
\<close>

record pipeline_sched =
  search_sched :: bulk_sched
  extract_order :: "nat list"

definition auto_search_and_extract ::
  "env \<Rightarrow> pipeline_sched \<Rightarrow> string \<Rightarrow> string list \<Rightarrow> int \<Rightarrow> bool \<Rightarrow>
   (error + (string \<times> string) list) io" where
  "auto_search_and_extract env sch provider queries num_results_from_each combined =
     (case bulk_search env (search_sched sch) provider queries num_results_from_each combined of
        (Inl e, fx) \<Rightarrow> (Inl e, fx)
      | (Inr search_results, fx) \<Rightarrow>
          (case (case search_results of
                   Combined urls \<Rightarrow>
                     fetch_site_from_url_bulk env (extract_order sch) urls Clean (Some 4096)
                 | Records rs \<Rightarrow>
                     (case thread_pool_executor (int (length rs)) of
                        Some e \<Rightarrow> (Inl e, [])
                      | None \<Rightarrow>
                          (Inr (sorted_by_length_reverse
                                  (collect_results (map (\<lambda>r. None) rs) [])), []))) of
             (Inl e, fx') \<Rightarrow> (Inl e, fx @ fx')
           | (Inr extract_results, fx') \<Rightarrow>
               (Inr (sorted_by_length_reverse extract_results), fx @ fx')))"


section \<open>The properties, in the words of the specification\<close>




















text \<open>The successful extractions in the order in which they were collected.\<close>

definition collected ::
  "env \<Rightarrow> nat list \<Rightarrow> string list \<Rightarrow> content_type \<Rightarrow> int option \<Rightarrow> (string \<times> string) list" where
  "collected env order urls ty max_text =
     List.map_filter (\<lambda>i. fst (fetch_site_from_url env (urls ! i) ty max_text)) order"

text \<open>Descending by the length of the content.\<close>

definition ranked :: "(string \<times> string) list \<Rightarrow> bool" where
  "ranked xs = sorted_wrt (\<lambda>a b. length (snd b) \<le> length (snd a)) xs"


text \<open>A search that returned a list returned at most \<open>k\<close> URLs.\<close>

definition at_most :: "int \<Rightarrow> error + 'a list \<Rightarrow> bool" where
  "at_most k r = (case r of Inl e \<Rightarrow> True | Inr xs \<Rightarrow> int (length xs) \<le> k)"

section \<open>Concrete pages and a concrete environment\<close>

definition anchor :: "string \<Rightarrow> node" where
  "anchor href = Element ''a'' [(''href'', href)] []"

definition google_page :: node where
  "google_page =
     Element ''html'' [] [Element ''body'' []
       [Element ''div'' [] [Element ''span'' [] [anchor ''http://a.test'']],
        Element ''div'' [] [Element ''span'' [] [anchor ''http://b.test'']],
        Element ''div'' [] [Element ''span'' [] [anchor ''/preferences'']],
        Element ''div'' [] [Element ''span'' [] [anchor ''http://a.test'']]]]"

definition bing_page :: node where
  "bing_page =
     Element ''html'' [] [Element ''body'' []
       [Element ''h2'' [] [anchor ''http://c.test'']]]"

definition blank_page :: node where
  "blank_page = Element ''html'' [] [Element ''body'' [] []]"

definition relative_page :: node where
  "relative_page =
     Element ''html'' [] [Element ''body'' []
       [Element ''div'' [(''class'', ''d-ib v-v'')]
          [Element ''h2'' [] [], anchor ''/settings'']]]"

definition page_of :: "string \<Rightarrow> string \<Rightarrow> response" where
  "page_of body text = \<lparr>content = body, markdown = Inr text, plain_text = Inr text\<rparr>"

text \<open>Google and Bing answer with a result page, DuckDuckGo with a page without
  results, three sites with a text each; every other request fails.\<close>

definition demo_fetch :: "string \<Rightarrow> error + response" where
  "demo_fetch url =
     (if prefix ''https://www.google.com/'' url then Inr (page_of ''google'' ''g'')
      else if prefix ''https://www.bing.com/'' url then Inr (page_of ''bing'' ''b'')
      else if prefix ''https://www.duckduckgo.com/'' url then Inr (page_of ''blank'' ''d'')
      else if url = ''http://a.test'' then Inr (page_of ''a'' ''four'')
      else if url = ''http://b.test'' then Inr (page_of ''b'' ''five5'')
      else if url = ''http://c.test'' then Inr (page_of ''c'' ''4444'')
      else Inl (TransportError ''connection failed''))"

definition demo_parse :: "string \<Rightarrow> error + node" where
  "demo_parse body =
     (if body = ''google'' then Inr google_page
      else if body = ''bing'' then Inr bing_page
      else if body = [] then Inl (ParserError ''Document is empty'')
      else Inr blank_page)"

definition demo_env :: env where
  "demo_env = \<lparr>fetch_get = demo_fetch, document_fromstring = demo_parse, unq = unquote,
                open_wb = (\<lambda>path. None)\<rparr>"

definition demo_auto :: "nat \<times> nat \<Rightarrow> auto_sched" where
  "demo_auto d = \<lparr>draws = d, completion = [1, 0]\<rparr>"

definition demo_bulk :: bulk_sched where
  "demo_bulk = \<lparr>query_order = [1, 0], query_sched = (\<lambda>i. demo_auto (0, 2))\<rparr>"





section \<open>What the loop examines\<close>



section \<open>The loop of the parsers and the keys of a dictionary\<close>


lemma fromkeys_distinct_id: "distinct (keys @ xs) \<Longrightarrow> fromkeys xs keys = keys @ xs"
  by (induction xs arbitrary: keys) auto

lemma scan_elements_distinct:
  "distinct page_results \<Longrightarrow>
   distinct (scan_elements un hrefs keep es page_results (set page_results))"
proof (induction es arbitrary: page_results)
  case Nil
  then show ?case by simp
next
  case (Cons e es)
  have step: "distinct (scan_elements un hrefs keep es (page_results @ [u])
                 (insert u (set page_results)))" if "u \<notin> set page_results" for u
    using Cons.IH [of "page_results @ [u]"] Cons.prems that by simp
  from Cons.IH [OF Cons.prems] step show ?case
    by (cases "hrefs e") (simp_all add: Let_def)
qed

lemma scan_elements_kept:
  "u \<in> set (scan_elements un hrefs keep es page_results (set page_results)) \<Longrightarrow>
   u \<in> set page_results \<or> (\<exists>e \<in> set es. keep e u)"
proof (induction es arbitrary: page_results)
  case Nil
  then show ?case by simp
next
  case (Cons e es)
  show ?case
  proof (cases "hrefs e")
    case Nil
    with Cons.prems have "u \<in> set (scan_elements un hrefs keep es page_results (set page_results))"
      by simp
    from Cons.IH [OF this] show ?thesis by auto
  next
    case (Cons h hs)
    let ?h = "normalize_url un h"
    show ?thesis
    proof (cases "h \<noteq> [] \<and> ?h \<noteq> [] \<and> keep e ?h \<and> ?h \<notin> set page_results")
      case True
      with Cons Cons.prems
      have "u \<in> set (scan_elements un hrefs keep es (page_results @ [?h])
                       (set (page_results @ [?h])))"
        by (simp add: Let_def)
      from Cons.IH [OF this] True show ?thesis by auto
    next
      case False
      with Cons Cons.prems
      have "u \<in> set (scan_elements un hrefs keep es page_results (set page_results))"
        by (auto simp: Let_def split: if_splits)
      from Cons.IH [OF this] show ?thesis by auto
    qed
  qed
qed


section \<open>The branches of the search\<close>

lemma search_google_eq:
  "search env sch ''google'' query k = slice_result (search_google env query k) k"
  by (subst search.simps) simp

lemma search_bing_eq:
  "search env sch ''bing'' query k = slice_result (search_bing env query k) k"
  by (subst search.simps) simp

lemma search_yahoo_eq:
  "search env sch ''yahoo'' query k = slice_result (search_yahoo env query k) k"
  by (subst search.simps) simp

lemma search_duckduckgo_eq:
  "search env sch ''duckduckgo'' query k = slice_result (search_duckduckgo env query k) k"
  by (subst search.simps) simp

lemma search_auto_eq:
  "search env sch ''auto'' query k =
     (let finished = as_completed (completion sch)
                       (map (\<lambda>eng. search env sch eng query k) (random_sample2 (draws sch) engines))
      in (Inr (slice_to (fromkeys (extend_results (map fst finished) []) []) k),
          concat (map snd finished)))"
  by (subst search.simps) (simp add: Let_def)

lemma search_other_eq:
  "provider \<notin> set engines \<Longrightarrow> provider \<noteq> ''auto'' \<Longrightarrow> search env sch provider query k = (Inr [], [])"
  by (subst search.simps) (simp add: engines_def)

lemma length_slice_to: "0 \<le> k \<Longrightarrow> int (length (slice_to xs k)) \<le> k"
  by (simp add: slice_to_def)

lemma at_most_slice_result: "0 \<le> k \<Longrightarrow> at_most k (fst (slice_result r k))"
  by (cases r; cases "fst r") (auto simp: slice_result_def at_most_def length_slice_to)

text \<open>
  Claim C6 (as amended). For every provider string, every query and every
  \<open>num_results = k\<close> that is not negative, a search that returns a list returns at
  most \<open>k\<close> URLs, whatever the parser yields.
\<close>

theorem search_cap: "0 \<le> k \<Longrightarrow> at_most k (fst (search env sch provider query k))"
proof -
  assume k: "0 \<le> k"
  consider "provider = ''google''" | "provider = ''bing''" | "provider = ''yahoo''"
    | "provider = ''duckduckgo''" | "provider = ''auto''"
    | "provider \<notin> set engines" "provider \<noteq> ''auto''"
    by (auto simp: engines_def)
  then show ?thesis
  proof cases
    case 1 with k show ?thesis by (simp add: search_google_eq at_most_slice_result)
  next
    case 2 with k show ?thesis by (simp add: search_bing_eq at_most_slice_result)
  next
    case 3 with k show ?thesis by (simp add: search_yahoo_eq at_most_slice_result)
  next
    case 4 with k show ?thesis by (simp add: search_duckduckgo_eq at_most_slice_result)
  next
    case 5 with k show ?thesis by (simp add: search_auto_eq Let_def at_most_def length_slice_to)
  next
    case 6 with k show ?thesis by (simp add: search_other_eq at_most_def)
  qed
qed

theorem search_cap_witness:
  "(0::int) \<le> 1 \<and> fst (search demo_env (demo_auto (0, 2)) ''auto'' ''q'' 1) = Inr [''http://a.test'']
   \<and> at_most 1 (fst (search demo_env (demo_auto (0, 2)) ''auto'' ''q'' 1))"
proof -
  have "fst (search demo_env (demo_auto (0, 2)) ''auto'' ''q'' 1) = Inr [''http://a.test'']"
    by code_simp
  then show ?thesis
    using search_cap [of 1 demo_env "demo_auto (0, 2)" "''auto''" "''q''"] by simp
qed

text \<open>
  With \<open>k = -1\<close> the slice \<open>[:k]\<close> drops the last URL and keeps the others: the
  parser yields two URLs and the search returns one, which is more than \<open>k\<close>.
\<close>

theorem search_cap_negative_counterexample:
  "\<not> at_most (- 1) (fst (search demo_env (demo_auto (0, 2)) ''google'' ''q'' (- 1)))"
proof -
  have "fst (search demo_env (demo_auto (0, 2)) ''google'' ''q'' (- 1)) = Inr [''http://a.test'']"
    by code_simp
  then show ?thesis by (simp add: at_most_def)
qed

text \<open>
  Claim C10. A search whose provider string is none of the five known ones returns the
  empty list, does not raise and has no effect: no request is sent.
\<close>

theorem search_unknown_provider:
  "provider \<notin> {''google'', ''bing'', ''yahoo'', ''duckduckgo'', ''auto''} \<Longrightarrow>
   search env sch provider query k = (Inr [], [])"
  by (rule search_other_eq) (simp_all add: engines_def)

theorem search_unknown_provider_witness:
  "''baidu'' \<notin> {''google'', ''bing'', ''yahoo'', ''duckduckgo'', ''auto''} \<and>
   search demo_env (demo_auto (0, 2)) ''baidu'' ''q'' 5 = (Inr [], [])"
  using search_unknown_provider [of "''baidu''" demo_env "demo_auto (0, 2)" "''q''" 5] by simp

section \<open>Effects on the filesystem\<close>

text \<open>
  Claim C9 (the code differs). A Bing search that receives its result page writes the
  body of the page to the file \<open>bing.html\<close>: the file exists afterwards, with that
  content.
\<close>

theorem bing_writes_file:
  "search demo_env (demo_auto (0, 2)) ''bing'' ''q'' 5 =
     (Inr [''http://c.test''],
      [HttpGet ''https://www.bing.com/search?q=q&count=5'', FileWrite ''bing.html'' ''bing''])
   \<and> apply_effects (snd (search demo_env (demo_auto (0, 2)) ''bing'' ''q'' 5)) Map.empty ''bing.html''
       = Some ''bing''"
proof -
  have a: "search demo_env (demo_auto (0, 2)) ''bing'' ''q'' 5 =
     (Inr [''http://c.test''],
      [HttpGet ''https://www.bing.com/search?q=q&count=5'', FileWrite ''bing.html'' ''bing''])"
    by code_simp
  show ?thesis unfolding a by (simp add: apply_effects_def)
qed

section \<open>The scheme of the returned URLs\<close>

text \<open>
  Claim C3 (the code differs). On a page whose matching anchor holds a relative link, the
  Yahoo parser and the DuckDuckGo parser return that link, which does not start with
  \<open>http\<close>.
\<close>

theorem yahoo_duckduckgo_keep_relative:
  "parse_yahoo unquote relative_page = [''/settings''] \<and>
   parse_duckduckgo unquote relative_page = [''/settings''] \<and>
   \<not> prefix ''http'' ''/settings''"
proof -
  have "parse_yahoo unquote relative_page = [''/settings'']" by code_simp
  moreover have "parse_duckduckgo unquote relative_page = [''/settings'']" by code_simp
  ultimately show ?thesis by simp
qed

text \<open>The Google parser and the Bing parser do test the scheme.\<close>

lemma google_bing_http:
  "h \<in> set (parse_google un tree) \<or> h \<in> set (parse_bing un tree) \<Longrightarrow> prefix ''http'' h"
  using scan_elements_kept [of h un xpath_span_a_href "\<lambda>e href. prefix ''http'' href"
      "xpath_all ''div'' tree" "[]"]
    scan_elements_kept [of h un xpath_a_href "\<lambda>e href. prefix ''http'' href"
      "xpath_all ''h2'' tree" "[]"]
  by (auto simp: parse_google_def parse_bing_def)


section \<open>Failures inside a batch\<close>

text \<open>The bulk search never raises, and the bulk extraction does not raise on a list
  of URLs that is not empty.\<close>

lemma bulk_search_total:
  "\<exists>r. fst (bulk_search env sch provider queries k combined) = Inr r"
proof -
  have "0 < (if queries \<noteq> [] then min 10 (int (length queries)) else 1)"
    by (cases queries) (auto simp: min_def)
  then show ?thesis
    by (auto simp: bulk_search_def thread_pool_executor_def Let_def split: prod.splits)
qed

lemma fetch_bulk_total:
  "urls \<noteq> [] \<Longrightarrow> \<exists>r. fst (fetch_site_from_url_bulk env order urls ty max_text) = Inr r"
  by (simp add: fetch_site_from_url_bulk_def thread_pool_executor_def Let_def)

text \<open>
  Claim C2 (the code differs). The bulk extraction raises on the empty list of URLs, and
  so does the pipeline when the search phase yields no URL: on no query at all, and on
  two queries whose searches both fail.
\<close>

theorem empty_batch_raises:
  "fst (fetch_site_from_url_bulk env order [] ty max_text)
     = Inl (ValueError ''max_workers must be greater than 0'') \<and>
   fst (auto_search_and_extract env sch provider [] k combined)
     = Inl (ValueError ''max_workers must be greater than 0'') \<and>
   fst (auto_search_and_extract demo_env \<lparr>search_sched = demo_bulk, extract_order = []\<rparr>
          ''yahoo'' [''x'', ''y''] 1 True)
     = Inl (ValueError ''max_workers must be greater than 0'')"
proof -
  have a: "fst (fetch_site_from_url_bulk env order [] ty max_text)
     = Inl (ValueError ''max_workers must be greater than 0'')"
    by (simp add: fetch_site_from_url_bulk_def thread_pool_executor_def)
  have b: "fst (auto_search_and_extract env sch provider [] k combined)
     = Inl (ValueError ''max_workers must be greater than 0'')"
    by (simp add: auto_search_and_extract_def bulk_search_def executor_map_def
        fetch_site_from_url_bulk_def thread_pool_executor_def Let_def)
  have c: "fst (auto_search_and_extract demo_env \<lparr>search_sched = demo_bulk, extract_order = []\<rparr>
          ''yahoo'' [''x'', ''y''] 1 True)
     = Inl (ValueError ''max_workers must be greater than 0'')"
    by code_simp
  from a b c show ?thesis by simp
qed


section \<open>Normalising twice\<close>

lemma replace_space_id: "CHR '' '' \<notin> set s \<Longrightarrow> replace_space s = s"
  unfolding replace_space_def by (induction s) auto

text \<open>
  Claim C4 (as amended). For every decoder that returns a string without \<open>%\<close> as it
  is, and every input \<open>x\<close>: when the normal form of \<open>x\<close> contains no \<open>%\<close>, no space
  and neither redirect marker, normalising it again returns it unchanged.
\<close>

theorem normalize_fixed_point:
  assumes un: "\<forall>s. CHR ''%'' \<notin> set s \<longrightarrow> un s = s"
    and plain: "CHR ''%'' \<notin> set (normalize_url un x)" "CHR '' '' \<notin> set (normalize_url un x)"
    and unwrapped: "\<not> contains ''uddg=http'' (normalize_url un x)"
      "\<not> contains ''/RU=http'' (normalize_url un x)"
  shows "normalize_url un (normalize_url un x) = normalize_url un x"
proof -
  define y where "y = normalize_url un x"
  from plain unwrapped have y: "CHR ''%'' \<notin> set y" "CHR '' '' \<notin> set y"
    "\<not> contains ''uddg=http'' y" "\<not> contains ''/RU=http'' y"
    by (simp_all add: y_def)
  from y(3,4) have "normalize_url un y = (if y \<noteq> [] then un (replace_space y) else [])"
    by (simp add: normalize_url_def)
  also from y(1,2) un have "\<dots> = y"
    by (simp add: replace_space_id)
  finally show ?thesis by (simp add: y_def)
qed

theorem normalize_fixed_point_witness:
  "normalize_url unquote ''//duckduckgo.com/l/?uddg=https%3A%2F%2Fexample.com%2Fa&rut=abc''
     = ''https://example.com/a'' \<and>
   normalize_url unquote
     (normalize_url unquote ''//duckduckgo.com/l/?uddg=https%3A%2F%2Fexample.com%2Fa&rut=abc'')
     = ''https://example.com/a''"
proof -
  let ?x = "''//duckduckgo.com/l/?uddg=https%3A%2F%2Fexample.com%2Fa&rut=abc''"
  have un: "\<forall>s. CHR ''%'' \<notin> set s \<longrightarrow> unquote s = s"
    by (simp add: unquote_def)
  have y: "normalize_url unquote ?x = ''https://example.com/a''"
    by code_simp
  have a: "CHR ''%'' \<notin> set (normalize_url unquote ?x)" unfolding y by simp
  have b: "CHR '' '' \<notin> set (normalize_url unquote ?x)" unfolding y by simp
  have c: "\<not> contains ''uddg=http'' (normalize_url unquote ?x)" unfolding y by code_simp
  have d: "\<not> contains ''/RU=http'' (normalize_url unquote ?x)" unfolding y by code_simp
  from normalize_fixed_point [OF un a b c d] y show ?thesis by simp
qed

text \<open>
  An escaped percent sign is decoded once by each pass: the normal form of
  \<open>http://a/%2541\<close> is \<open>http://a/%41\<close>, whose normal form is \<open>http://a/A\<close>.
\<close>

theorem normalize_twice_counterexample:
  "normalize_url unquote (normalize_url unquote ''http://a/%2541'')
     \<noteq> normalize_url unquote ''http://a/%2541''"
proof -
  have a: "normalize_url unquote ''http://a/%2541'' = ''http://a/%41''" by code_simp
  have b: "normalize_url unquote ''http://a/%41'' = ''http://a/A''" by code_simp
  show ?thesis unfolding a b by simp
qed

section \<open>Ranking of the extracted records\<close>

lemma mset_sorted_by_length_reverse: "mset (sorted_by_length_reverse xs) = mset xs"
  by (simp add: sorted_by_length_reverse_def)

lemma ranked_sorted_by_length_reverse: "ranked (sorted_by_length_reverse xs)"
proof -
  have "sorted (map (\<lambda>item. length (snd item)) (sort_key (\<lambda>item. length (snd item)) (rev xs)))"
    by (rule sorted_sort_key)
  then show ?thesis
    by (simp add: ranked_def sorted_by_length_reverse_def sorted_wrt_rev sorted_map)
qed

lemma stable_sorted_by_length_reverse:
  "filter (\<lambda>r. length (snd r) = n) (sorted_by_length_reverse xs) = filter (\<lambda>r. length (snd r) = n) xs"
proof -
  have "filter (\<lambda>r. length (snd r) = n) (sort_key (\<lambda>item. length (snd item)) (rev xs))
        = filter (\<lambda>r. length (snd r) = n) (rev xs)"
    by (rule sort_key_stable)
  then show ?thesis
    by (simp add: sorted_by_length_reverse_def rev_filter [symmetric])
qed

lemma collect_results_map_filter: "collect_results rs acc = acc @ List.map_filter id rs"
proof (induction rs arbitrary: acc)
  case Nil
  then show ?case by (simp add: List.map_filter_simps)
next
  case (Cons r rs)
  then show ?case by (cases r) (simp_all add: List.map_filter_simps)
qed

lemma map_filter_id_map: "List.map_filter id (map g xs) = List.map_filter g xs"
  by (induction xs) (simp_all add: List.map_filter_simps split: option.splits)

lemma valid_order_set: "valid_order n order \<Longrightarrow> set order = {0..<n}"
proof -
  assume "valid_order n order"
  then have "set (sort order) = set [0..<n]" by (simp add: valid_order_def)
  then show ?thesis by simp
qed

lemma collected_eq:
  assumes "valid_order (length urls) order"
  shows "collect_results
           (map fst (as_completed order (map (\<lambda>url. fetch_site_from_url env url ty max_text) urls))) []
         = collected env order urls ty max_text"
proof -
  from assms have "\<forall>i \<in> set order. i < length urls"
    by (simp add: valid_order_set)
  then have "map fst (as_completed order (map (\<lambda>url. fetch_site_from_url env url ty max_text) urls))
      = map (\<lambda>i. fst (fetch_site_from_url env (urls ! i) ty max_text)) order"
    by (simp add: as_completed_def)
  then show ?thesis
    by (simp add: collect_results_map_filter collected_def map_filter_id_map)
qed

text \<open>
  Claim C8. When the bulk extraction returns, its output is a permutation of the
  collected records, in descending order of the length of the content, and the records
  of any one length are in the order in which they were collected.
\<close>

theorem bulk_ranking:
  assumes "valid_order (length urls) order"
    and "fst (fetch_site_from_url_bulk env order urls ty max_text) = Inr out"
  shows "mset out = mset (collected env order urls ty max_text) \<and> ranked out \<and>
         (\<forall>n. filter (\<lambda>r. length (snd r) = n) out
              = filter (\<lambda>r. length (snd r) = n) (collected env order urls ty max_text))"
proof -
  from assms(2) have "out = sorted_by_length_reverse
      (collect_results
         (map fst (as_completed order (map (\<lambda>url. fetch_site_from_url env url ty max_text) urls))) [])"
    by (auto simp: fetch_site_from_url_bulk_def Let_def split: option.splits)
  with collected_eq [OF assms(1)]
  have "out = sorted_by_length_reverse (collected env order urls ty max_text)" by simp
  then show ?thesis
    by (simp add: mset_sorted_by_length_reverse ranked_sorted_by_length_reverse
        stable_sorted_by_length_reverse)
qed

theorem bulk_ranking_witness:
  "valid_order (length [''http://a.test'', ''http://b.test'', ''http://c.test'', ''http://d.test''])
     [2, 0, 1, 3] \<and>
   collected demo_env [2, 0, 1, 3]
     [''http://a.test'', ''http://b.test'', ''http://c.test'', ''http://d.test''] Clean (Some 4096)
     = [(''http://c.test'', ''4444''), (''http://a.test'', ''four''), (''http://b.test'', ''five5'')] \<and>
   fst (fetch_site_from_url_bulk demo_env [2, 0, 1, 3]
     [''http://a.test'', ''http://b.test'', ''http://c.test'', ''http://d.test''] Clean (Some 4096))
     = Inr [(''http://b.test'', ''five5''), (''http://c.test'', ''4444''), (''http://a.test'', ''four'')] \<and>
   ranked [(''http://b.test'', ''five5''), (''http://c.test'', ''4444''), (''http://a.test'', ''four'')]"
proof -
  let ?urls = "[''http://a.test'', ''http://b.test'', ''http://c.test'', ''http://d.test'']"
  have v: "valid_order (length ?urls) [2, 0, 1, 3]" by code_simp
  have c: "collected demo_env [2, 0, 1, 3] ?urls Clean (Some 4096)
     = [(''http://c.test'', ''4444''), (''http://a.test'', ''four''), (''http://b.test'', ''five5'')]"
    by code_simp
  have r: "fst (fetch_site_from_url_bulk demo_env [2, 0, 1, 3] ?urls Clean (Some 4096))
     = Inr [(''http://b.test'', ''five5''), (''http://c.test'', ''4444''), (''http://a.test'', ''four'')]"
    by code_simp
  from bulk_ranking [OF v r] v c r show ?thesis by simp
qed


section \<open>Order of the bulk search\<close>

lemma map_filter_all_Some:
  "(\<And>x. x \<in> set xs \<Longrightarrow> f x = Some (g x)) \<Longrightarrow> List.map_filter f xs = map g xs"
  by (induction xs) (simp_all add: List.map_filter_simps)

lemma executor_map_results:
  assumes "valid_order (length tasks) order"
  shows "fst (executor_map order tasks) = map fst tasks"
proof -
  let ?g = "\<lambda>i. fst (tasks ! i)"
  from assms have order: "set order = {0..<length tasks}" by (rule valid_order_set)
  have slot: "map_of (map (\<lambda>i. (i, ?g i)) order) j = Some (?g j)" if "j \<in> set [0..<length tasks]" for j
    using that order by (simp add: map_of_map_restrict restrict_map_def)
  have "List.map_filter (map_of (map (\<lambda>i. (i, ?g i)) order)) [0..<length tasks]
        = map ?g [0..<length tasks]"
    using slot by (rule map_filter_all_Some)
  also have "\<dots> = map fst (map (\<lambda>i. tasks ! i) [0..<length tasks])"
    by (simp only: map_map comp_def)
  also have "\<dots> = map fst tasks"
    by (simp only: map_nth)
  finally show ?thesis by (simp add: executor_map_def)
qed

lemma sr_query_search_with_error_handling:
  "sr_query (fst (search_with_error_handling env sch provider query k)) = query"
  by (simp add: search_with_error_handling_def split: prod.splits sum.splits)

text \<open>
  Claim C1. For every list of queries, every number of results and every completion
  order of the per-query searches, the bulk search with \<open>combined = False\<close> returns
  one record per query, and the record at each position is the one that the search of
  the query at that position produced.
\<close>

theorem bulk_search_order:
  assumes "valid_order (length queries) (query_order sch)"
  shows "\<exists>records. fst (bulk_search env sch provider queries k False) = Inr (Records records)
           \<and> length records = length queries
           \<and> (\<forall>i < length queries.
                 records ! i = fst (search_with_error_handling env (query_sched sch i) provider
                                      (queries ! i) k)
                 \<and> sr_query (records ! i) = queries ! i)"
proof -
  let ?tasks = "map (\<lambda>(i, q). search_with_error_handling env (query_sched sch i) provider q k)
                  (enumerate 0 queries)"
  have len: "length ?tasks = length queries" by simp
  have pool: "thread_pool_executor (if queries \<noteq> [] then min 10 (int (length queries)) else 1) = None"
    by (cases queries) (auto simp: thread_pool_executor_def min_def)
  from assms have "fst (executor_map (query_order sch) ?tasks) = map fst ?tasks"
    by (intro executor_map_results) simp
  with pool have res: "fst (bulk_search env sch provider queries k False) = Inr (Records (map fst ?tasks))"
    by (simp add: bulk_search_def Let_def split_beta)
  have "\<forall>i < length queries.
          map fst ?tasks ! i = fst (search_with_error_handling env (query_sched sch i) provider
                                      (queries ! i) k)"
    by (simp add: nth_enumerate_eq)
  with res len show ?thesis
    by (auto simp: sr_query_search_with_error_handling)
qed

theorem bulk_search_order_witness:
  "valid_order (length [''x'', ''y'']) (query_order demo_bulk) \<and>
   fst (bulk_search demo_env demo_bulk ''auto'' [''x'', ''y''] 1 False)
     = Inr (Records [\<lparr>sr_query = ''x'', sr_urls = [''http://a.test''], sr_error = None\<rparr>,
                     \<lparr>sr_query = ''y'', sr_urls = [''http://a.test''], sr_error = None\<rparr>]) \<and>
   fst (search_with_error_handling demo_env (query_sched demo_bulk 1) ''auto'' ([''x'', ''y''] ! 1) 1)
     = \<lparr>sr_query = ''y'', sr_urls = [''http://a.test''], sr_error = None\<rparr>"
proof -
  have v: "valid_order (length [''x'', ''y'']) (query_order demo_bulk)" by code_simp
  have r: "fst (bulk_search demo_env demo_bulk ''auto'' [''x'', ''y''] 1 False)
     = Inr (Records [\<lparr>sr_query = ''x'', sr_urls = [''http://a.test''], sr_error = None\<rparr>,
                     \<lparr>sr_query = ''y'', sr_urls = [''http://a.test''], sr_error = None\<rparr>])"
    by code_simp
  from bulk_search_order [OF v, of demo_env "''auto''" 1] r v show ?thesis
    by auto
qed


section \<open>Auto mode with one failing provider\<close>

lemma random_sample2_engines:
  "\<exists>c1 c2. random_sample2 d engines = [c1, c2] \<and> c1 \<in> set engines \<and> c2 \<in> set engines"
proof -
  obtain d0 d1 where d: "d = (d0, d1)" by (cases d)
  have "d0 mod 4 < 4" and "d1 mod 3 < 3" by simp_all
  then have "(d0 mod 4 = 0 \<or> d0 mod 4 = 1 \<or> d0 mod 4 = 2 \<or> d0 mod 4 = 3)
      \<and> (d1 mod 3 = 0 \<or> d1 mod 3 = 1 \<or> d1 mod 3 = 2)" by arith
  with d show ?thesis
    by (auto simp: random_sample2_def engines_def Let_def)
qed

lemma valid_order_2: "valid_order 2 order \<Longrightarrow> order = [0, 1] \<or> order = [1, 0]"
proof -
  assume v: "valid_order 2 order"
  have two: "[0..<2] = [0, Suc 0]" by (simp add: numeral_2_eq_2)
  from v have "length (sort order) = length [0..<2]" by (simp only: valid_order_def)
  then have "length order = Suc (Suc 0)" by simp
  then obtain a b where ab: "order = [a, b]"
    by (auto simp: length_Suc_conv)
  with v show ?thesis
    by (auto simp: valid_order_def two split: if_splits)
qed

lemma slice_result_Inr:
  "fst (slice_result r k) = Inr L \<Longrightarrow> \<exists>xs. fst r = Inr xs \<and> L = slice_to xs k"
  by (cases r; cases "fst r") (auto simp: slice_result_def)

lemma distinct_slice_to: "distinct xs \<Longrightarrow> distinct (slice_to xs k)"
  by (simp add: slice_to_def)

lemma slice_to_id: "0 \<le> k \<Longrightarrow> int (length xs) \<le> k \<Longrightarrow> slice_to xs k = xs"
  by (simp add: slice_to_def)

lemma distinct_scan_elements: "distinct (scan_elements un hrefs keep es [] {})"
  using scan_elements_distinct [of "[]" un hrefs keep es] by simp

lemma distinct_parse_page:
  "parse_page env parse_google body = Inr xs \<Longrightarrow> distinct xs"
  "parse_page env parse_bing body = Inr xs \<Longrightarrow> distinct xs"
  "parse_page env parse_yahoo body = Inr xs \<Longrightarrow> distinct xs"
  "parse_page env parse_duckduckgo body = Inr xs \<Longrightarrow> distinct xs"
  by (auto simp: parse_page_def parse_google_def parse_bing_def parse_yahoo_def
      parse_duckduckgo_def distinct_scan_elements split: sum.splits)

lemma distinct_search_google: "fst (search_google env query k) = Inr xs \<Longrightarrow> distinct xs"
  by (cases "fetch_get env (''https://www.google.com/search?udm=14&q='' @ query @ ''&num='' @ str_int k)")
    (auto simp: search_google_def Let_def dest: distinct_parse_page)

lemma distinct_search_bing: "fst (search_bing env query k) = Inr xs \<Longrightarrow> distinct xs"
  by (cases "fetch_get env (''https://www.bing.com/search?q='' @ query @ ''&count='' @ str_int k)";
      cases "open_wb env ''bing.html''")
    (auto simp: search_bing_def Let_def dest: distinct_parse_page)

lemma distinct_search_yahoo: "fst (search_yahoo env query k) = Inr xs \<Longrightarrow> distinct xs"
  by (cases "fetch_get env (''https://search.yahoo.com/search?q='' @ query @ ''&n='' @ str_int k)")
    (auto simp: search_yahoo_def Let_def dest: distinct_parse_page)

lemma distinct_search_duckduckgo: "fst (search_duckduckgo env query k) = Inr xs \<Longrightarrow> distinct xs"
  by (cases "fetch_get env (''https://www.duckduckgo.com/html/?q='' @ query @ ''&num='' @ str_int k)")
    (auto simp: search_duckduckgo_def Let_def dest: distinct_parse_page)

lemma distinct_slice_result:
  assumes "\<And>xs. fst r = Inr xs \<Longrightarrow> distinct xs" and "fst (slice_result r k) = Inr L"
  shows "distinct L \<and> (0 \<le> k \<longrightarrow> int (length L) \<le> k)"
proof -
  from assms(2) obtain xs where xs: "fst r = Inr xs" "L = slice_to xs k"
    by (auto dest: slice_result_Inr)
  with assms(1) show ?thesis
    by (simp add: distinct_slice_to length_slice_to)
qed

lemma engine_search_result:
  assumes "eng \<in> set engines" and "fst (search env sch eng query k) = Inr L"
  shows "distinct L \<and> (0 \<le> k \<longrightarrow> int (length L) \<le> k)"
proof -
  from assms(1) consider "eng = ''google''" | "eng = ''bing''" | "eng = ''yahoo''"
    | "eng = ''duckduckgo''"
    by (auto simp: engines_def)
  then show ?thesis
  proof cases
    case 1
    with assms(2) show ?thesis
      by (intro distinct_slice_result [of "search_google env query k"])
        (simp_all add: search_google_eq distinct_search_google)
  next
    case 2
    with assms(2) show ?thesis
      by (intro distinct_slice_result [of "search_bing env query k"])
        (simp_all add: search_bing_eq distinct_search_bing)
  next
    case 3
    with assms(2) show ?thesis
      by (intro distinct_slice_result [of "search_yahoo env query k"])
        (simp_all add: search_yahoo_eq distinct_search_yahoo)
  next
    case 4
    with assms(2) show ?thesis
      by (intro distinct_slice_result [of "search_duckduckgo env query k"])
        (simp_all add: search_duckduckgo_eq distinct_search_duckduckgo)
  qed
qed

lemma search_auto_total: "\<exists>r. fst (search env sch ''auto'' query k) = Inr r"
  by (simp add: search_auto_eq Let_def)

text \<open>
  Claim C5 (as amended). In auto mode, for every query and every \<open>num_results\<close> that
  is not negative, whichever two providers are drawn and in whichever order their
  searches complete: when the search of one of them raises and the search of the other
  returns the list \<open>L\<close>, the auto search does not raise and returns exactly \<open>L\<close>.
\<close>

theorem auto_resilience:
  assumes k: "0 \<le> k" and order: "valid_order 2 (completion sch)"
    and one: "map (\<lambda>eng. fst (search env sch eng query k)) (random_sample2 (draws sch) engines)
              \<in> {[Inl e, Inr L], [Inr L, Inl e]}"
  shows "fst (search env sch ''auto'' query k) = Inr L"
proof -
  obtain c1 c2 where chosen: "random_sample2 (draws sch) engines = [c1, c2]"
    and c: "c1 \<in> set engines" "c2 \<in> set engines"
    using random_sample2_engines by blast
  from one chosen
  have res: "fst (search env sch c1 query k) = Inl e \<and> fst (search env sch c2 query k) = Inr L
        \<or> fst (search env sch c1 query k) = Inr L \<and> fst (search env sch c2 query k) = Inl e"
    by auto
  with c have L: "distinct L" "0 \<le> k \<longrightarrow> int (length L) \<le> k"
    using engine_search_result by blast+
  from valid_order_2 [OF order] res
  have "extend_results
          (map fst (as_completed (completion sch) [search env sch c1 query k, search env sch c2 query k]))
          [] = L"
    by (auto simp: as_completed_def)
  with chosen have "fst (search env sch ''auto'' query k) = Inr (slice_to (fromkeys L []) k)"
    by (simp add: search_auto_eq Let_def)
  with L k show ?thesis
    by (simp add: fromkeys_distinct_id slice_to_id)
qed

theorem auto_resilience_witness:
  "(0::int) \<le> 5 \<and> valid_order 2 (completion (demo_auto (0, 2))) \<and>
   map (\<lambda>eng. fst (search demo_env (demo_auto (0, 2)) eng ''q'' 5))
     (random_sample2 (draws (demo_auto (0, 2))) engines)
     = [Inr [''http://a.test'', ''http://b.test''], Inl (TransportError ''connection failed'')] \<and>
   fst (search demo_env (demo_auto (0, 2)) ''auto'' ''q'' 5)
     = Inr [''http://a.test'', ''http://b.test'']"
proof -
  have v: "valid_order 2 (completion (demo_auto (0, 2)))" by code_simp
  have m: "map (\<lambda>eng. fst (search demo_env (demo_auto (0, 2)) eng ''q'' 5))
     (random_sample2 (draws (demo_auto (0, 2))) engines)
     = [Inr [''http://a.test'', ''http://b.test''], Inl (TransportError ''connection failed'')]"
    by code_simp
  then have one: "map (\<lambda>eng. fst (search demo_env (demo_auto (0, 2)) eng ''q'' 5))
     (random_sample2 (draws (demo_auto (0, 2))) engines)
     \<in> {[Inl (TransportError ''connection failed''), Inr [''http://a.test'', ''http://b.test'']],
        [Inr [''http://a.test'', ''http://b.test''], Inl (TransportError ''connection failed'')]}"
    by simp
  have k: "(0::int) \<le> 5" by simp
  from auto_resilience [OF k v one] v m show ?thesis by simp
qed

text \<open>
  The result is empty when \<open>L\<close> is: Yahoo fails, DuckDuckGo answers with a page
  without results, and the auto search returns the empty list. With
  \<open>num_results = -1\<close> the slice is taken twice: Google's search returns one URL and
  the auto search drops it.
\<close>

theorem auto_resilience_counterexample:
  "map (\<lambda>eng. fst (search demo_env (demo_auto (2, 2)) eng ''q'' 5))
     (random_sample2 (draws (demo_auto (2, 2))) engines)
     = [Inl (TransportError ''connection failed''), Inr []] \<and>
   fst (search demo_env (demo_auto (2, 2)) ''auto'' ''q'' 5) = Inr [] \<and>
   map (\<lambda>eng. fst (search demo_env (demo_auto (0, 2)) eng ''q'' (- 1)))
     (random_sample2 (draws (demo_auto (0, 2))) engines)
     = [Inr [''http://a.test''], Inl (TransportError ''connection failed'')] \<and>
   fst (search demo_env (demo_auto (0, 2)) ''auto'' ''q'' (- 1)) = Inr []"
proof -
  have "map (\<lambda>eng. fst (search demo_env (demo_auto (2, 2)) eng ''q'' 5))
     (random_sample2 (draws (demo_auto (2, 2))) engines)
     = [Inl (TransportError ''connection failed''), Inr []]"
    by code_simp
  moreover have "fst (search demo_env (demo_auto (2, 2)) ''auto'' ''q'' 5) = Inr []"
    by code_simp
  moreover have "map (\<lambda>eng. fst (search demo_env (demo_auto (0, 2)) eng ''q'' (- 1)))
     (random_sample2 (draws (demo_auto (0, 2))) engines)
     = [Inr [''http://a.test''], Inl (TransportError ''connection failed'')]"
    by code_simp
  moreover have "fst (search demo_env (demo_auto (0, 2)) ''auto'' ''q'' (- 1)) = Inr []"
    by code_simp
  ultimately show ?thesis by simp
qed


section \<open>Deduplication in the parsers\<close>

subsection \<open>The loop keeps the first occurrences of what it examines\<close>








subsection \<open>What the loop examines, in terms of the queries\<close>













subsection \<open>Pages with one anchor in each container: rules on the parent\<close>







subsection \<open>Pages with one anchor in each container: Google's rule\<close>









subsection \<open>The four parsers\<close>










end
